theory Spec2Isabelle
  imports Complex_Main "HOL-Library.Char_ord" "HOL-Library.List_Lexorder" "HOL-Library.Multiset"
begin

section \<open>The store: four tables with AUTOINCREMENT keys\<close>

text \<open>
  \<^verbatim>\<open>init_db\<close> creates four tables. A row of each table is a record; the columns keep
  their names, prefixed by the table's initial because two tables share column names.
  Text columns hold the strings the callers pass, \<^verbatim>\<open>INTEGER\<close> columns hold integers, and
  the \<^verbatim>\<open>REAL\<close> column \<^verbatim>\<open>amount\<close> holds the real number that the stored value denotes (no
  arithmetic is done on it by the model itself). No column holds \<^verbatim>\<open>NULL\<close>: the operations
  are given a value for every column without a default.
\<close>

record patient =
  p_id :: int
  p_first_name :: string
  p_last_name :: string
  p_dob :: string
  p_phone :: string
  p_notes :: string

record appointment =
  a_id :: int
  a_patient_id :: int
  a_doctor :: string
  a_datetime :: string
  a_reason :: string
  a_status :: string

record consultation =
  c_id :: int
  c_appointment_id :: int
  c_patient_id :: int
  c_doctor :: string
  c_notes :: string
  c_prescription :: string
  c_created_at :: string

record invoice =
  i_id :: int
  i_patient_id :: int
  i_appointment_id :: int
  i_amount :: real
  i_issued_at :: string
  i_paid :: int

text \<open>
  A table is the list of its rows in insertion order. Every key is declared
  \<^verbatim>\<open>INTEGER PRIMARY KEY AUTOINCREMENT\<close>, so the store keeps, for each table, the largest
  key it ever handed out (the table's entry in \<^verbatim>\<open>sqlite_sequence\<close>, 0 before the first
  insert).
\<close>

record store =
  patients :: "patient list"
  patients_seq :: int
  appointments :: "appointment list"
  appointments_seq :: int
  consultations :: "consultation list"
  consultations_seq :: int
  invoices :: "invoice list"
  invoices_seq :: int

definition empty_store :: store where
  "empty_store =
     \<lparr>patients = [], patients_seq = 0, appointments = [], appointments_seq = 0,
      consultations = [], consultations_seq = 0, invoices = [], invoices_seq = 0\<rparr>"

text \<open>
  \<^verbatim>\<open>init_db\<close>: every statement is \<^verbatim>\<open>CREATE TABLE IF NOT EXISTS\<close>, so a store that
  already has its tables is left as it is and a fresh file gets four empty tables.
\<close>

definition init_db :: "store option \<Rightarrow> store" where
  "init_db f = (case f of None \<Rightarrow> empty_store | Some s \<Rightarrow> s)"

text \<open>
  The key an AUTOINCREMENT insert assigns: one more than the larger of the recorded
  sequence value and the largest key present in the table.
\<close>

definition next_rowid :: "int \<Rightarrow> int list \<Rightarrow> int" where
  "next_rowid seq ids = fold max ids seq + 1"

section \<open>Cursors and statements\<close>

text \<open>
  A cursor carries \<^verbatim>\<open>lastrowid\<close>: \<^verbatim>\<open>None\<close> on a new cursor, set by an \<^verbatim>\<open>INSERT\<close>, left
  as it is by an \<^verbatim>\<open>UPDATE\<close>. Each statement below is one \<^verbatim>\<open>c.execute\<close> of the source.
\<close>

record cursor =
  lastrowid :: "int option"

definition new_cursor :: cursor where
  "new_cursor = \<lparr>lastrowid = None\<rparr>"

definition insert_patient ::
  "string \<Rightarrow> string \<Rightarrow> string \<Rightarrow> string \<Rightarrow> string \<Rightarrow> cursor \<Rightarrow> store \<Rightarrow> cursor \<times> store" where
  "insert_patient first last' dob phone notes c s =
     (let rid = next_rowid (patients_seq s) (map p_id (patients s)) in
      (c\<lparr>lastrowid := Some rid\<rparr>,
       s\<lparr>patients := patients s @
            [\<lparr>p_id = rid, p_first_name = first, p_last_name = last', p_dob = dob,
              p_phone = phone, p_notes = notes\<rparr>],
         patients_seq := rid\<rparr>))"

text \<open>The \<^verbatim>\<open>status\<close> column is not given by the insert and takes its default.\<close>

definition insert_appointment ::
  "int \<Rightarrow> string \<Rightarrow> string \<Rightarrow> string \<Rightarrow> cursor \<Rightarrow> store \<Rightarrow> cursor \<times> store" where
  "insert_appointment patient_id doctor dt_str reason c s =
     (let rid = next_rowid (appointments_seq s) (map a_id (appointments s)) in
      (c\<lparr>lastrowid := Some rid\<rparr>,
       s\<lparr>appointments := appointments s @
            [\<lparr>a_id = rid, a_patient_id = patient_id, a_doctor = doctor, a_datetime = dt_str,
              a_reason = reason, a_status = ''scheduled''\<rparr>],
         appointments_seq := rid\<rparr>))"

definition insert_consultation ::
  "int \<Rightarrow> int \<Rightarrow> string \<Rightarrow> string \<Rightarrow> string \<Rightarrow> string \<Rightarrow> cursor \<Rightarrow> store \<Rightarrow> cursor \<times> store" where
  "insert_consultation appointment_id patient_id doctor notes prescription created_at c s =
     (let rid = next_rowid (consultations_seq s) (map c_id (consultations s)) in
      (c\<lparr>lastrowid := Some rid\<rparr>,
       s\<lparr>consultations := consultations s @
            [\<lparr>c_id = rid, c_appointment_id = appointment_id, c_patient_id = patient_id,
              c_doctor = doctor, c_notes = notes, c_prescription = prescription,
              c_created_at = created_at\<rparr>],
         consultations_seq := rid\<rparr>))"

text \<open>The \<^verbatim>\<open>paid\<close> column is not given by the insert and takes its default 0.\<close>

definition insert_invoice ::
  "int \<Rightarrow> int \<Rightarrow> real \<Rightarrow> string \<Rightarrow> cursor \<Rightarrow> store \<Rightarrow> cursor \<times> store" where
  "insert_invoice patient_id appointment_id amount issued_at c s =
     (let rid = next_rowid (invoices_seq s) (map i_id (invoices s)) in
      (c\<lparr>lastrowid := Some rid\<rparr>,
       s\<lparr>invoices := invoices s @
            [\<lparr>i_id = rid, i_patient_id = patient_id, i_appointment_id = appointment_id,
              i_amount = amount, i_issued_at = issued_at, i_paid = 0\<rparr>],
         invoices_seq := rid\<rparr>))"

text \<open>\<^verbatim>\<open>UPDATE appointments SET status='completed' WHERE id=?\<close>\<close>

definition update_appointment_completed :: "int \<Rightarrow> cursor \<Rightarrow> store \<Rightarrow> cursor \<times> store" where
  "update_appointment_completed appointment_id c s =
     (c, s\<lparr>appointments :=
            map (\<lambda>a. if a_id a = appointment_id then a\<lparr>a_status := ''completed''\<rparr> else a)
              (appointments s)\<rparr>)"

text \<open>\<^verbatim>\<open>UPDATE invoices SET paid=? WHERE id=?\<close>\<close>

definition update_invoice_paid :: "int \<Rightarrow> int \<Rightarrow> cursor \<Rightarrow> store \<Rightarrow> cursor \<times> store" where
  "update_invoice_paid v iid c s =
     (c, s\<lparr>invoices := map (\<lambda>i. if i_id i = iid then i\<lparr>i_paid := v\<rparr> else i) (invoices s)\<rparr>)"

section \<open>Core operations\<close>

text \<open>
  Each operation opens a connection and a cursor, runs its statements, commits and
  returns \<^verbatim>\<open>c.lastrowid\<close> (for the inserts) together with the store it leaves. The
  timestamps taken from \<^verbatim>\<open>datetime.now().isoformat()\<close> are arguments of the model.
\<close>

definition add_patient ::
  "string \<Rightarrow> string \<Rightarrow> string \<Rightarrow> string \<Rightarrow> string \<Rightarrow> store \<Rightarrow> int option \<times> store" where
  "add_patient first last' dob phone notes s =
     (let (c, s1) = insert_patient first last' dob phone notes new_cursor s
      in (lastrowid c, s1))"

definition add_appointment ::
  "int \<Rightarrow> string \<Rightarrow> string \<Rightarrow> string \<Rightarrow> store \<Rightarrow> int option \<times> store" where
  "add_appointment patient_id doctor dt_str reason s =
     (let (c, s1) = insert_appointment patient_id doctor dt_str reason new_cursor s
      in (lastrowid c, s1))"

definition add_consultation ::
  "int \<Rightarrow> int \<Rightarrow> string \<Rightarrow> string \<Rightarrow> string \<Rightarrow> string \<Rightarrow> store \<Rightarrow> int option \<times> store" where
  "add_consultation appointment_id patient_id doctor notes prescription now s =
     (let created_at = now;
          (c1, s1) = insert_consultation appointment_id patient_id doctor notes prescription
                       created_at new_cursor s;
          (c2, s2) = update_appointment_completed appointment_id c1 s1
      in (lastrowid c2, s2))"

definition generate_invoice ::
  "int \<Rightarrow> int \<Rightarrow> real \<Rightarrow> string \<Rightarrow> store \<Rightarrow> int option \<times> store" where
  "generate_invoice patient_id appointment_id amount now s =
     (let issued_at = now;
          (c, s1) = insert_invoice patient_id appointment_id amount issued_at new_cursor s
      in (lastrowid c, s1))"

section \<open>Queries\<close>

text \<open>
  \<^verbatim>\<open>fetchone\<close> gives the first row of a result, or \<^verbatim>\<open>None\<close> when the result is empty.
\<close>

definition fetchone :: "'a list \<Rightarrow> 'a option" where
  "fetchone rows = (case rows of [] \<Rightarrow> None | r # _ \<Rightarrow> Some r)"

text \<open>
  \<^verbatim>\<open>ORDER BY key DESC\<close>. Rows with equal keys come in an order SQL leaves open; the model
  fixes one, and no statement below depends on it. Text keys are compared byte by byte,
  which is the lexicographic order on strings.
\<close>

definition order_by_desc :: "('a \<Rightarrow> 'k::linorder) \<Rightarrow> 'a list \<Rightarrow> 'a list" where
  "order_by_desc key rows = rev (sort_key key rows)"

definition list_patients :: "store \<Rightarrow> (int \<times> string \<times> string \<times> string \<times> string) list" where
  "list_patients s =
     map (\<lambda>p. (p_id p, p_first_name p, p_last_name p, p_dob p, p_phone p))
       (order_by_desc p_id (patients s))"

definition get_patient ::
  "int \<Rightarrow> store \<Rightarrow> (int \<times> string \<times> string \<times> string \<times> string \<times> string) option" where
  "get_patient pid s =
     fetchone (map (\<lambda>p. (p_id p, p_first_name p, p_last_name p, p_dob p, p_phone p, p_notes p))
       (filter (\<lambda>p. p_id p = pid) (patients s)))"

text \<open>
  The inner join \<^verbatim>\<open>FROM t JOIN patients p ON t.patient_id = p.id\<close>: every pair of a row and
  a patient whose id the row's foreign key equals, in the order of a nested scan.
\<close>

definition join_patients :: "('a \<Rightarrow> int) \<Rightarrow> 'a list \<Rightarrow> patient list \<Rightarrow> ('a \<times> patient) list" where
  "join_patients fk rows ps =
     concat (map (\<lambda>r. map (Pair r) (filter (\<lambda>p. fk r = p_id p) ps)) rows)"

definition list_appointments ::
  "store \<Rightarrow> (int \<times> string \<times> string \<times> string \<times> string \<times> string) list" where
  "list_appointments s =
     map (\<lambda>(a, p). (a_id a, p_first_name p @ '' '' @ p_last_name p, a_doctor a, a_datetime a,
                     a_reason a, a_status a))
       (order_by_desc (\<lambda>(a, p). a_datetime a)
          (join_patients a_patient_id (appointments s) (patients s)))"

definition list_consultations ::
  "store \<Rightarrow> (int \<times> string \<times> string \<times> string \<times> string) list" where
  "list_consultations s =
     map (\<lambda>(c, p). (c_id c, p_first_name p @ '' '' @ p_last_name p, c_doctor c, c_created_at c,
                     c_prescription c))
       (order_by_desc (\<lambda>(c, p). c_created_at c)
          (join_patients c_patient_id (consultations s) (patients s)))"

definition list_invoices ::
  "store \<Rightarrow> (int \<times> string \<times> real \<times> string \<times> int) list" where
  "list_invoices s =
     map (\<lambda>(i, p). (i_id i, p_first_name p @ '' '' @ p_last_name p, i_amount i, i_issued_at i,
                     i_paid i))
       (order_by_desc (\<lambda>(i, p). i_issued_at i)
          (join_patients i_patient_id (invoices s) (patients s)))"

section \<open>Toggling the paid flag\<close>

text \<open>
  \<^verbatim>\<open>HospitalApp.toggle_invoice_paid\<close>. The selection of the invoice list is the id shown in
  the selected line, or \<^verbatim>\<open>None\<close> when no line is selected (the method then returns at
  once). \<^verbatim>\<open>c.fetchone()[0]\<close> raises \<^verbatim>\<open>TypeError\<close> when no invoice has that id. The written
  value is \<^verbatim>\<open>0 if paid else 1\<close>, where an integer is true when it is not 0.
\<close>

datatype error = TypeError

definition select_invoice_paid :: "int \<Rightarrow> store \<Rightarrow> int option" where
  "select_invoice_paid iid s = fetchone (map i_paid (filter (\<lambda>i. i_id i = iid) (invoices s)))"

definition toggle_invoice_paid :: "int option \<Rightarrow> store \<Rightarrow> error + store" where
  "toggle_invoice_paid sel s =
     (case sel of
        None \<Rightarrow> Inr s
      | Some iid \<Rightarrow>
          (case select_invoice_paid iid s of
             None \<Rightarrow> Inl TypeError
           | Some paid \<Rightarrow>
               Inr (snd (update_invoice_paid (if paid \<noteq> 0 then 0 else 1) iid new_cursor s))))"

section \<open>Admin dashboard\<close>

text \<open>
  \<^verbatim>\<open>HospitalApp.refresh_admin\<close> up to the values it fetches (the text it renders from them
  is not modelled). \<^verbatim>\<open>SUM(amount)\<close> adds \<^verbatim>\<open>REAL\<close> values in floating point; that
  addition is the parameter \<open>real_sum\<close>. \<^verbatim>\<open>SUM\<close> over no rows is \<^verbatim>\<open>NULL\<close>, which
  \<^verbatim>\<open>IFNULL(..., 0)\<close> replaces by 0.
\<close>

record dashboard =
  d_patients :: int
  d_appts :: int
  d_cons :: int
  d_inv_count :: int
  d_inv_sum :: real

definition sum_aggregate :: "(real list \<Rightarrow> real) \<Rightarrow> real list \<Rightarrow> real option" where
  "sum_aggregate real_sum vs = (if vs = [] then None else Some (real_sum vs))"

definition ifnull :: "'a option \<Rightarrow> 'a \<Rightarrow> 'a" where
  "ifnull v d = (case v of None \<Rightarrow> d | Some x \<Rightarrow> x)"

definition refresh_admin :: "(real list \<Rightarrow> real) \<Rightarrow> store \<Rightarrow> dashboard" where
  "refresh_admin real_sum s =
     \<lparr>d_patients = int (length (patients s)),
      d_appts = int (length (appointments s)),
      d_cons = int (length (consultations s)),
      d_inv_count = int (length (invoices s)),
      d_inv_sum = ifnull (sum_aggregate real_sum (map i_amount (invoices s))) 0\<rparr>"

section \<open>Sample seed\<close>

text \<open>
  \<^verbatim>\<open>seed_sample_data\<close> does nothing when the patients table has a row; otherwise it runs
  four inserts on one cursor. The two timestamps are arguments.
\<close>

definition seed_sample_data :: "string \<Rightarrow> string \<Rightarrow> store \<Rightarrow> store" where
  "seed_sample_data now1 now2 s =
     (let ifc = int (length (patients s)) in
      if ifc > 0 then s
      else
        (let (c1, s1) = insert_patient ''Alice'' ''Wong'' ''1985-04-12'' ''+441234567890''
                          ''Allergic to penicillin'' new_cursor s;
             (c2, s2) = insert_patient ''Bob'' ''Smith'' ''1990-11-03'' ''+447700900123''
                          ''Diabetic'' c1 s1;
             (c3, s3) = insert_appointment 1 ''Dr. Patel'' now1 ''Routine checkup'' c2 s2;
             (c4, s4) = insert_appointment 2 ''Dr. Jones'' now2 ''Follow-up'' c3 s3
         in s4))"

section \<open>Sequences of operations\<close>

text \<open>
  The operations that change the store, as a datatype, and the store a sequence of them
  leaves. A sequence stops at the first operation that raises.
\<close>

datatype op =
    Add_patient string string string string string
  | Add_appointment int string string string
  | Add_consultation int int string string string string
  | Generate_invoice int int real string
  | Toggle_invoice_paid "int option"
  | Seed_sample_data string string

fun step :: "op \<Rightarrow> store \<Rightarrow> error + store" where
  "step (Add_patient f l d ph n) s = Inr (snd (add_patient f l d ph n s))"
| "step (Add_appointment p d dt r) s = Inr (snd (add_appointment p d dt r s))"
| "step (Add_consultation a p d n pr now) s = Inr (snd (add_consultation a p d n pr now s))"
| "step (Generate_invoice p a amt now) s = Inr (snd (generate_invoice p a amt now s))"
| "step (Toggle_invoice_paid sel) s = toggle_invoice_paid sel s"
| "step (Seed_sample_data now1 now2) s = Inr (seed_sample_data now1 now2 s)"

fun run :: "op list \<Rightarrow> store \<Rightarrow> error + store" where
  "run [] s = Inr s"
| "run (x # xs) s = (case step x s of Inl e \<Rightarrow> Inl e | Inr s' \<Rightarrow> run xs s')"

section \<open>Properties of stores\<close>

text \<open>Every \<^verbatim>\<open>id\<close> column is a primary key: no two rows of a table share their id.\<close>

definition keys_unique :: "store \<Rightarrow> bool" where
  "keys_unique s =
     (distinct (map p_id (patients s)) \<and> distinct (map a_id (appointments s))
      \<and> distinct (map c_id (consultations s)) \<and> distinct (map i_id (invoices s)))"

definition patient_exists :: "store \<Rightarrow> int \<Rightarrow> bool" where
  "patient_exists s pid = (pid \<in> p_id ` set (patients s))"

definition paid_is_bit :: "store \<Rightarrow> bool" where
  "paid_is_bit s = list_all (\<lambda>i. i_paid i = 0 \<or> i_paid i = 1) (invoices s)"

section \<open>Example stores\<close>

text \<open>
  A store with one row of each table that refers to a patient id (7) no patient has,
  the sequence of operations that builds it from the empty store, and two stores on the
  way in which every row refers to an existing patient.
\<close>

definition alice :: patient where
  "alice = \<lparr>p_id = 1, p_first_name = ''Alice'', p_last_name = ''Wong'', p_dob = ''1985-04-12'',
            p_phone = ''+441234567890'', p_notes = ''Allergic to penicillin''\<rparr>"

definition bob :: patient where
  "bob = \<lparr>p_id = 2, p_first_name = ''Bob'', p_last_name = ''Smith'', p_dob = ''1990-11-03'',
          p_phone = ''+447700900123'', p_notes = ''Diabetic''\<rparr>"

definition checkup :: appointment where
  "checkup = \<lparr>a_id = 1, a_patient_id = 1, a_doctor = ''Dr. Patel'', a_datetime = ''2024-01-01T09:00'',
              a_reason = ''Routine checkup'', a_status = ''completed''\<rparr>"

definition follow_up :: appointment where
  "follow_up = \<lparr>a_id = 2, a_patient_id = 2, a_doctor = ''Dr. Jones'', a_datetime = ''2024-01-01T09:01'',
                a_reason = ''Follow-up'', a_status = ''scheduled''\<rparr>"

definition stray_appointment :: appointment where
  "stray_appointment = \<lparr>a_id = 3, a_patient_id = 7, a_doctor = ''Dr. Smith'',
      a_datetime = ''2024-01-02T10:00'', a_reason = ''Consultation'', a_status = ''completed''\<rparr>"

definition checkup_notes :: consultation where
  "checkup_notes = \<lparr>c_id = 1, c_appointment_id = 1, c_patient_id = 1, c_doctor = ''Dr. Patel'',
      c_notes = ''fine'', c_prescription = ''rest'', c_created_at = ''2024-01-03T11:00''\<rparr>"

definition stray_consultation :: consultation where
  "stray_consultation = \<lparr>c_id = 2, c_appointment_id = 3, c_patient_id = 7, c_doctor = ''Dr. Smith'',
      c_notes = '''', c_prescription = '''', c_created_at = ''2024-01-03T11:30''\<rparr>"

definition checkup_invoice :: invoice where
  "checkup_invoice = \<lparr>i_id = 1, i_patient_id = 1, i_appointment_id = 1, i_amount = 75,
      i_issued_at = ''2024-01-03T12:00'', i_paid = 1\<rparr>"

definition stray_invoice :: invoice where
  "stray_invoice = \<lparr>i_id = 2, i_patient_id = 7, i_appointment_id = 3, i_amount = 20,
      i_issued_at = ''2024-01-03T12:30'', i_paid = 0\<rparr>"

definition example_store :: store where
  "example_store =
     \<lparr>patients = [alice, bob], patients_seq = 2,
      appointments = [checkup, follow_up, stray_appointment], appointments_seq = 3,
      consultations = [checkup_notes, stray_consultation], consultations_seq = 2,
      invoices = [checkup_invoice, stray_invoice], invoices_seq = 2\<rparr>"

definition example_ops :: "op list" where
  "example_ops =
     [Seed_sample_data ''2024-01-01T09:00'' ''2024-01-01T09:01'',
      Add_appointment 7 ''Dr. Smith'' ''2024-01-02T10:00'' ''Consultation'',
      Add_consultation 1 1 ''Dr. Patel'' ''fine'' ''rest'' ''2024-01-03T11:00'',
      Add_consultation 3 7 ''Dr. Smith'' '''' '''' ''2024-01-03T11:30'',
      Generate_invoice 1 1 75 ''2024-01-03T12:00'',
      Generate_invoice 7 3 20 ''2024-01-03T12:30'',
      Toggle_invoice_paid (Some 1)]"

definition seeded_store :: store where
  "seeded_store =
     \<lparr>patients = [alice, bob], patients_seq = 2,
      appointments = [checkup\<lparr>a_status := ''scheduled''\<rparr>, follow_up], appointments_seq = 2,
      consultations = [], consultations_seq = 0,
      invoices = [], invoices_seq = 0\<rparr>"

definition clean_store :: store where
  "clean_store =
     \<lparr>patients = [alice, bob], patients_seq = 2,
      appointments = [checkup, follow_up], appointments_seq = 2,
      consultations = [checkup_notes], consultations_seq = 1,
      invoices = [checkup_invoice\<lparr>i_paid := 0\<rparr>], invoices_seq = 1\<rparr>"

section \<open>Unfolding the operations\<close>

lemmas example_rows =
  alice_def bob_def checkup_def follow_up_def stray_appointment_def checkup_notes_def
  stray_consultation_def checkup_invoice_def stray_invoice_def

lemmas op_defs =
  add_patient_def add_appointment_def add_consultation_def generate_invoice_def
  toggle_invoice_paid_def seed_sample_data_def insert_patient_def insert_appointment_def
  insert_consultation_def insert_invoice_def update_appointment_completed_def
  update_invoice_paid_def select_invoice_paid_def fetchone_def new_cursor_def next_rowid_def
  empty_store_def Let_def

lemma add_patient_eq:
  "add_patient f l d ph n s =
     (Some (next_rowid (patients_seq s) (map p_id (patients s))),
      s\<lparr>patients := patients s @
           [\<lparr>p_id = next_rowid (patients_seq s) (map p_id (patients s)), p_first_name = f,
             p_last_name = l, p_dob = d, p_phone = ph, p_notes = n\<rparr>],
         patients_seq := next_rowid (patients_seq s) (map p_id (patients s))\<rparr>)"
  by (simp add: add_patient_def insert_patient_def new_cursor_def Let_def)

lemma add_appointment_eq:
  "add_appointment p d dt r s =
     (Some (next_rowid (appointments_seq s) (map a_id (appointments s))),
      s\<lparr>appointments := appointments s @
           [\<lparr>a_id = next_rowid (appointments_seq s) (map a_id (appointments s)),
             a_patient_id = p, a_doctor = d, a_datetime = dt, a_reason = r,
             a_status = ''scheduled''\<rparr>],
         appointments_seq := next_rowid (appointments_seq s) (map a_id (appointments s))\<rparr>)"
  by (simp add: add_appointment_def insert_appointment_def new_cursor_def Let_def)

lemma add_consultation_eq:
  "add_consultation a p d n pr now s =
     (Some (next_rowid (consultations_seq s) (map c_id (consultations s))),
      s\<lparr>consultations := consultations s @
           [\<lparr>c_id = next_rowid (consultations_seq s) (map c_id (consultations s)),
             c_appointment_id = a, c_patient_id = p, c_doctor = d, c_notes = n,
             c_prescription = pr, c_created_at = now\<rparr>],
         consultations_seq := next_rowid (consultations_seq s) (map c_id (consultations s)),
         appointments :=
           map (\<lambda>x. if a_id x = a then x\<lparr>a_status := ''completed''\<rparr> else x) (appointments s)\<rparr>)"
  by (simp add: add_consultation_def insert_consultation_def update_appointment_completed_def
      new_cursor_def Let_def)

lemma generate_invoice_eq:
  "generate_invoice p a amt now s =
     (Some (next_rowid (invoices_seq s) (map i_id (invoices s))),
      s\<lparr>invoices := invoices s @
           [\<lparr>i_id = next_rowid (invoices_seq s) (map i_id (invoices s)), i_patient_id = p,
             i_appointment_id = a, i_amount = amt, i_issued_at = now, i_paid = 0\<rparr>],
         invoices_seq := next_rowid (invoices_seq s) (map i_id (invoices s))\<rparr>)"
  by (simp add: generate_invoice_def insert_invoice_def new_cursor_def Let_def)

lemma seed_sample_data_eq:
  "seed_sample_data now1 now2 s =
     (if patients s \<noteq> [] then s
      else snd (insert_appointment 2 ''Dr. Jones'' now2 ''Follow-up'' new_cursor
             (snd (insert_appointment 1 ''Dr. Patel'' now1 ''Routine checkup'' new_cursor
               (snd (insert_patient ''Bob'' ''Smith'' ''1990-11-03'' ''+447700900123''
                      ''Diabetic'' new_cursor
                 (snd (insert_patient ''Alice'' ''Wong'' ''1985-04-12'' ''+441234567890''
                        ''Allergic to penicillin'' new_cursor s))))))))"
  by (simp add: seed_sample_data_def insert_patient_def insert_appointment_def Let_def)

lemma toggle_invoice_paid_None: "toggle_invoice_paid None s = Inr s"
  by (simp add: toggle_invoice_paid_def)

lemma toggle_invoice_paid_Some:
  "toggle_invoice_paid (Some iid) s =
     (case select_invoice_paid iid s of
        None \<Rightarrow> Inl TypeError
      | Some paid \<Rightarrow>
          Inr (s\<lparr>invoices :=
                 map (\<lambda>i. if i_id i = iid then i\<lparr>i_paid := (if paid \<noteq> 0 then 0 else 1)\<rparr> else i)
                   (invoices s)\<rparr>))"
  by (simp add: toggle_invoice_paid_def update_invoice_paid_def split: option.splits)

section \<open>Keys\<close>

lemma fold_max_ge_init: "(seq::int) \<le> fold max ids seq"
  by (induction ids arbitrary: seq) (auto intro: order_trans [OF max.cobounded2])

lemma fold_max_ge_elem: "(x::int) \<in> set ids \<Longrightarrow> x \<le> fold max ids seq"
proof (induction ids arbitrary: seq)
  case Nil
  then show ?case by simp
next
  case (Cons y ys)
  show ?case
  proof (cases "x = y")
    case True
    have "y \<le> max y seq" by simp
    also have "\<dots> \<le> fold max ys (max y seq)" by (rule fold_max_ge_init)
    finally show ?thesis using True by simp
  next
    case False
    with Cons show ?thesis by simp
  qed
qed

lemma next_rowid_gt_seq: "seq < next_rowid seq ids"
  using fold_max_ge_init [of seq ids] by (simp add: next_rowid_def)

lemma next_rowid_gt_elem: "x \<in> set ids \<Longrightarrow> x < next_rowid seq ids"
  using fold_max_ge_elem [of x ids seq] by (simp add: next_rowid_def)

lemma next_rowid_fresh: "next_rowid seq ids \<notin> set ids"
  using next_rowid_gt_elem [of "next_rowid seq ids" ids seq] by auto

section \<open>The example stores are reachable\<close>

lemma seed_empty_store:
  "seed_sample_data ''2024-01-01T09:00'' ''2024-01-01T09:01'' empty_store = seeded_store"
  by (simp add: op_defs seeded_store_def example_rows)

lemma run_example_ops: "run example_ops empty_store = Inr example_store"
  by (simp add: example_ops_def seed_empty_store)
     (simp add: op_defs seeded_store_def example_store_def example_rows)

lemma run_clean_ops:
  "run [Seed_sample_data ''2024-01-01T09:00'' ''2024-01-01T09:01'',
        Add_consultation 1 1 ''Dr. Patel'' ''fine'' ''rest'' ''2024-01-03T11:00'',
        Generate_invoice 1 1 75 ''2024-01-03T12:00''] empty_store = Inr clean_store"
  by (simp add: seed_empty_store)
     (simp add: op_defs seeded_store_def clean_store_def example_rows)

section \<open>Adding a consultation\<close>

text \<open>
  Claim C1. For every store and all arguments, \<^verbatim>\<open>add_consultation\<close> returns an id (not
  \<^verbatim>\<open>None\<close>), and that id is the key of the consultation row the call inserted: the
  consultations table afterwards is the old table followed by one row that carries the
  arguments and the returned id, and no older row has that id. The \<^verbatim>\<open>UPDATE\<close> that
  runs between the insert and the read of \<^verbatim>\<open>lastrowid\<close> does not disturb it.
\<close>

theorem add_consultation_returns_inserted_id:
  "\<exists>cid. fst (add_consultation a p d n pr now s) = Some cid
     \<and> consultations (snd (add_consultation a p d n pr now s)) =
         consultations s @
           [\<lparr>c_id = cid, c_appointment_id = a, c_patient_id = p, c_doctor = d, c_notes = n,
             c_prescription = pr, c_created_at = now\<rparr>]
     \<and> cid \<notin> set (map c_id (consultations s))"
  using next_rowid_fresh [of "consultations_seq s" "map c_id (consultations s)"]
  by (simp add: add_consultation_eq)

lemma add_consultation_appointments:
  "appointments (snd (add_consultation a p d n pr now s)) =
     map (\<lambda>x. if a_id x = a then x\<lparr>a_status := ''completed''\<rparr> else x) (appointments s)"
  by (simp add: add_consultation_eq)

text \<open>
  Claim C2. For every store and every appointment id \<open>a\<close> that some appointment row
  \<open>ap\<close> of the store has, after \<^verbatim>\<open>add_consultation(a, ...)\<close> that row is in the table with
  status \<^verbatim>\<open>completed\<close>, and every row with id \<open>a\<close> has status \<^verbatim>\<open>completed\<close>. Nothing is
  assumed about the status before or about the consultations already stored.
\<close>

theorem add_consultation_completes_appointment:
  assumes "ap \<in> set (appointments s)" and "a_id ap = a"
  shows "ap\<lparr>a_status := ''completed''\<rparr> \<in> set (appointments (snd (add_consultation a p d n pr now s)))
     \<and> (\<forall>x \<in> set (appointments (snd (add_consultation a p d n pr now s))).
           a_id x = a \<longrightarrow> a_status x = ''completed'')"
  using assms by (auto simp: add_consultation_appointments split: if_splits)

text \<open>
  The appointment \<open>follow_up\<close> of the example store is scheduled before the call.
\<close>

theorem add_consultation_completes_appointment_witness:
  "follow_up \<in> set (appointments example_store) \<and> a_id follow_up = 2
   \<and> follow_up\<lparr>a_status := ''completed''\<rparr> \<in>
        set (appointments (snd (add_consultation 2 2 ''Dr. Jones'' '''' '''' ''2024-01-04T08:00''
               example_store)))
   \<and> a_status (appointments (snd (add_consultation 2 2 ''Dr. Jones'' '''' ''''
                    ''2024-01-04T08:00'' example_store)) ! 1) = ''completed''"
proof -
  let ?s' = "snd (add_consultation 2 2 ''Dr. Jones'' '''' '''' ''2024-01-04T08:00'' example_store)"
  have h1: "follow_up \<in> set (appointments example_store)" by (simp add: example_store_def)
  have h2: "a_id follow_up = 2" by (simp add: follow_up_def)
  have m: "appointments ?s' ! 1 \<in> set (appointments ?s')"
    by (simp add: add_consultation_appointments example_store_def)
  have k: "a_id (appointments ?s' ! 1) = 2"
    by (simp add: add_consultation_appointments example_store_def example_rows)
  from add_consultation_completes_appointment [OF h1 h2, of 2 "''Dr. Jones''" "''''" "''''"
      "''2024-01-04T08:00''"] m k
  have "follow_up\<lparr>a_status := ''completed''\<rparr> \<in> set (appointments ?s')"
    and "a_status (appointments ?s' ! 1) = ''completed''"
    by blast+
  with h1 h2 show ?thesis by blast
qed

text \<open>
  Claim C3. For every store, \<^verbatim>\<open>add_consultation(a, ...)\<close> leaves the patients and the
  invoices (rows and sequence values) as they are, keeps the number and the ids of the
  appointments, and leaves every appointment whose id is not \<open>a\<close> unchanged in its place,
  status included.
\<close>

theorem add_consultation_frame:
  "patients (snd (add_consultation a p d n pr now s)) = patients s
   \<and> patients_seq (snd (add_consultation a p d n pr now s)) = patients_seq s
   \<and> invoices (snd (add_consultation a p d n pr now s)) = invoices s
   \<and> invoices_seq (snd (add_consultation a p d n pr now s)) = invoices_seq s
   \<and> appointments_seq (snd (add_consultation a p d n pr now s)) = appointments_seq s
   \<and> length (appointments (snd (add_consultation a p d n pr now s))) = length (appointments s)
   \<and> (\<forall>k < length (appointments s).
         a_id (appointments s ! k) \<noteq> a \<longrightarrow>
           appointments (snd (add_consultation a p d n pr now s)) ! k = appointments s ! k)
   \<and> (\<forall>k < length (appointments s).
         a_id (appointments (snd (add_consultation a p d n pr now s)) ! k) = a_id (appointments s ! k))"
  by (simp add: add_consultation_eq)

text \<open>
  In the example store the appointment at position 1 has id 2; a consultation against
  appointment 1 leaves it alone.
\<close>

theorem add_consultation_frame_witness:
  "(1::nat) < length (appointments example_store)
   \<and> a_id (appointments example_store ! 1) \<noteq> 1
   \<and> appointments (snd (add_consultation 1 1 ''Dr. Patel'' '''' '''' ''2024-01-04T08:00''
        example_store)) ! 1 = appointments example_store ! 1
   \<and> patients (snd (add_consultation 1 1 ''Dr. Patel'' '''' '''' ''2024-01-04T08:00''
        example_store)) = patients example_store
   \<and> invoices (snd (add_consultation 1 1 ''Dr. Patel'' '''' '''' ''2024-01-04T08:00''
        example_store)) = invoices example_store"
proof -
  have h1: "(1::nat) < length (appointments example_store)" by (simp add: example_store_def)
  have h2: "a_id (appointments example_store ! 1) \<noteq> 1"
    by (simp add: example_store_def follow_up_def)
  from add_consultation_frame [of 1 1 "''Dr. Patel''" "''''" "''''" "''2024-01-04T08:00''"
      example_store] h1 h2
  show ?thesis by blast
qed

section \<open>Invoices and the paid flag\<close>

lemma fetchone_paid_after_update:
  "fetchone (map i_paid (filter (\<lambda>i. i_id i = j)
      (map (\<lambda>i. if i_id i = j then i\<lparr>i_paid := w\<rparr> else i) xs))) =
   (if filter (\<lambda>i. i_id i = j) xs = [] then None else Some w)"
  by (induction xs) (auto simp: fetchone_def)

lemma select_invoice_paid_after_update:
  assumes "select_invoice_paid j s = Some v"
  shows "select_invoice_paid j
           (s\<lparr>invoices := map (\<lambda>i. if i_id i = j then i\<lparr>i_paid := w\<rparr> else i) (invoices s)\<rparr>)
         = Some w"
proof -
  from assms have "filter (\<lambda>i. i_id i = j) (invoices s) \<noteq> []"
    by (auto simp: select_invoice_paid_def fetchone_def)
  then show ?thesis by (simp add: select_invoice_paid_def fetchone_paid_after_update)
qed

lemma distinct_paid_of_key:
  "distinct (map i_id xs) \<Longrightarrow> fetchone (map i_paid (filter (\<lambda>i. i_id i = j) xs)) = Some v
     \<Longrightarrow> \<forall>i \<in> set xs. i_id i = j \<longrightarrow> i_paid i = v"
proof (induction xs)
  case Nil
  then show ?case by simp
next
  case (Cons x xs)
  show ?case
  proof (cases "i_id x = j")
    case True
    with Cons.prems have "i_paid x = v" "\<forall>i \<in> set xs. i_id i \<noteq> j"
      by (auto simp: fetchone_def image_iff)
    with True show ?thesis by auto
  next
    case False
    with Cons show ?thesis by simp
  qed
qed

lemma update_paid_twice:
  "map (\<lambda>i. if i_id i = j then i\<lparr>i_paid := v\<rparr> else i)
     (map (\<lambda>i. if i_id i = j then i\<lparr>i_paid := w\<rparr> else i) xs) =
   map (\<lambda>i. if i_id i = j then i\<lparr>i_paid := v\<rparr> else i) xs"
  by (induction xs) auto

lemma update_paid_same:
  "\<forall>i \<in> set xs. i_id i = j \<longrightarrow> i_paid i = v \<Longrightarrow>
   map (\<lambda>i. if i_id i = j then i\<lparr>i_paid := v\<rparr> else i) xs = xs"
  by (induction xs) auto

lemma toggle_twice:
  assumes v: "select_invoice_paid j s = Some v"
  shows "\<exists>s1 s2. toggle_invoice_paid (Some j) s = Inr s1
           \<and> select_invoice_paid j s1 = Some (if v \<noteq> 0 then 0 else 1)
           \<and> toggle_invoice_paid (Some j) s1 = Inr s2
           \<and> select_invoice_paid j s2 = Some (if v \<noteq> 0 then 1 else 0)
           \<and> ((v = 0 \<or> v = 1) \<and> distinct (map i_id (invoices s)) \<longrightarrow> s2 = s)"
proof -
  let ?w = "if v \<noteq> 0 then 0 else 1 :: int"
  let ?u = "if v \<noteq> 0 then 1 else 0 :: int"
  let ?s1 = "s\<lparr>invoices := map (\<lambda>i. if i_id i = j then i\<lparr>i_paid := ?w\<rparr> else i) (invoices s)\<rparr>"
  let ?s2 = "s\<lparr>invoices := map (\<lambda>i. if i_id i = j then i\<lparr>i_paid := ?u\<rparr> else i) (invoices s)\<rparr>"
  have t1: "toggle_invoice_paid (Some j) s = Inr ?s1"
    by (simp add: toggle_invoice_paid_Some v)
  have p1: "select_invoice_paid j ?s1 = Some ?w"
    using v by (rule select_invoice_paid_after_update)
  have t2: "toggle_invoice_paid (Some j) ?s1 = Inr ?s2"
    by (simp add: toggle_invoice_paid_Some p1 update_paid_twice)
  have p2: "select_invoice_paid j ?s2 = Some ?u"
    using v by (rule select_invoice_paid_after_update)
  have e: "?s2 = s" if b: "v = 0 \<or> v = 1" and d: "distinct (map i_id (invoices s))"
  proof -
    from d v have "\<forall>i \<in> set (invoices s). i_id i = j \<longrightarrow> i_paid i = v"
      by (intro distinct_paid_of_key) (simp_all add: select_invoice_paid_def)
    then have m: "map (\<lambda>i. if i_id i = j then i\<lparr>i_paid := v\<rparr> else i) (invoices s) = invoices s"
      by (rule update_paid_same)
    from b show ?thesis
    proof
      assume v0: "v = 0"
      from m [unfolded v0] show ?thesis by (simp add: v0)
    next
      assume v1: "v = 1"
      from m [unfolded v1] show ?thesis by (simp add: v1)
    qed
  qed
  from t1 p1 t2 p2 e show ?thesis by blast
qed

lemma select_new_invoice:
  "select_invoice_paid (next_rowid (invoices_seq s) (map i_id (invoices s)))
     (snd (generate_invoice p a amt now s)) = Some 0"
proof -
  let ?r = "next_rowid (invoices_seq s) (map i_id (invoices s))"
  have "\<forall>i \<in> set (invoices s). i_id i \<noteq> ?r"
    using next_rowid_fresh [of "invoices_seq s" "map i_id (invoices s)"]
    by (auto simp: image_iff)
  then have "filter (\<lambda>i. i_id i = ?r) (invoices s) = []"
    by (simp add: filter_empty_conv)
  then show ?thesis
    by (simp add: select_invoice_paid_def generate_invoice_eq fetchone_def)
qed

text \<open>
  Claim C4. \<^verbatim>\<open>generate_invoice\<close> returns an id and appends one row with that id and
  \<^verbatim>\<open>paid = 0\<close>; toggling that id once makes \<^verbatim>\<open>paid\<close> 1 and toggling it again makes it 0.
  For every store and every invoice id \<open>j\<close> present, with \<^verbatim>\<open>paid\<close> value \<open>v\<close>, both
  toggles succeed, the first writes the opposite truth value and the second restores the
  truth value of \<open>v\<close>; when \<open>v\<close> is 0 or 1 and ids are unique, the second toggle gives
  back the very store the first started from.
\<close>

theorem toggle_invoice_paid_twice:
  "(\<exists>iid. fst (generate_invoice p a amt now s) = Some iid
      \<and> invoices (snd (generate_invoice p a amt now s)) =
          invoices s @ [\<lparr>i_id = iid, i_patient_id = p, i_appointment_id = a, i_amount = amt,
                         i_issued_at = now, i_paid = 0\<rparr>]
      \<and> select_invoice_paid iid (snd (generate_invoice p a amt now s)) = Some 0
      \<and> (\<exists>s1 s2. toggle_invoice_paid (Some iid) (snd (generate_invoice p a amt now s)) = Inr s1
            \<and> select_invoice_paid iid s1 = Some 1
            \<and> toggle_invoice_paid (Some iid) s1 = Inr s2
            \<and> select_invoice_paid iid s2 = Some 0))
   \<and> (select_invoice_paid j s = Some v \<longrightarrow>
        (\<exists>s1 s2. toggle_invoice_paid (Some j) s = Inr s1
           \<and> select_invoice_paid j s1 = Some (if v \<noteq> 0 then 0 else 1)
           \<and> toggle_invoice_paid (Some j) s1 = Inr s2
           \<and> select_invoice_paid j s2 = Some (if v \<noteq> 0 then 1 else 0)
           \<and> ((v = 0 \<or> v = 1) \<and> distinct (map i_id (invoices s)) \<longrightarrow> s2 = s)))"
proof (intro conjI impI)
  let ?iid = "next_rowid (invoices_seq s) (map i_id (invoices s))"
  let ?g = "snd (generate_invoice p a amt now s)"
  have 1: "fst (generate_invoice p a amt now s) = Some ?iid"
    by (simp add: generate_invoice_eq)
  have 2: "invoices ?g = invoices s @ [\<lparr>i_id = ?iid, i_patient_id = p, i_appointment_id = a,
             i_amount = amt, i_issued_at = now, i_paid = 0\<rparr>]"
    by (simp add: generate_invoice_eq)
  have 3: "select_invoice_paid ?iid ?g = Some 0" by (rule select_new_invoice)
  from toggle_twice [OF 3]
  have 4: "\<exists>s1 s2. toggle_invoice_paid (Some ?iid) ?g = Inr s1
            \<and> select_invoice_paid ?iid s1 = Some 1
            \<and> toggle_invoice_paid (Some ?iid) s1 = Inr s2
            \<and> select_invoice_paid ?iid s2 = Some 0"
    by auto
  from 1 2 3 4 show "\<exists>iid. fst (generate_invoice p a amt now s) = Some iid
      \<and> invoices (snd (generate_invoice p a amt now s)) =
          invoices s @ [\<lparr>i_id = iid, i_patient_id = p, i_appointment_id = a, i_amount = amt,
                         i_issued_at = now, i_paid = 0\<rparr>]
      \<and> select_invoice_paid iid (snd (generate_invoice p a amt now s)) = Some 0
      \<and> (\<exists>s1 s2. toggle_invoice_paid (Some iid) (snd (generate_invoice p a amt now s)) = Inr s1
            \<and> select_invoice_paid iid s1 = Some 1
            \<and> toggle_invoice_paid (Some iid) s1 = Inr s2
            \<and> select_invoice_paid iid s2 = Some 0)"
    by blast
next
  assume "select_invoice_paid j s = Some v"
  then show "\<exists>s1 s2. toggle_invoice_paid (Some j) s = Inr s1
           \<and> select_invoice_paid j s1 = Some (if v \<noteq> 0 then 0 else 1)
           \<and> toggle_invoice_paid (Some j) s1 = Inr s2
           \<and> select_invoice_paid j s2 = Some (if v \<noteq> 0 then 1 else 0)
           \<and> ((v = 0 \<or> v = 1) \<and> distinct (map i_id (invoices s)) \<longrightarrow> s2 = s)"
    by (rule toggle_twice)
qed

text \<open>
  Invoice 1 of the example store is paid; two toggles lead back to the example store.
\<close>

theorem toggle_invoice_paid_twice_witness:
  "select_invoice_paid 1 example_store = Some 1
   \<and> distinct (map i_id (invoices example_store))
   \<and> (\<exists>s1. toggle_invoice_paid (Some 1) example_store = Inr s1
         \<and> select_invoice_paid 1 s1 = Some 0
         \<and> toggle_invoice_paid (Some 1) s1 = Inr example_store)"
proof -
  have h1: "select_invoice_paid 1 example_store = Some 1"
    by (simp add: select_invoice_paid_def fetchone_def example_store_def example_rows)
  have h2: "distinct (map i_id (invoices example_store))"
    by (simp add: example_store_def example_rows)
  from toggle_invoice_paid_twice [of 0 0 0 "''''" example_store 1 1] h1 h2
  show ?thesis by auto
qed

lemma invoices_insert_patient [simp]:
  "invoices (snd (insert_patient f l d ph n c s)) = invoices s"
  by (simp add: insert_patient_def Let_def)

lemma invoices_insert_appointment [simp]:
  "invoices (snd (insert_appointment p d dt r c s)) = invoices s"
  by (simp add: insert_appointment_def Let_def)

lemma invoices_seed [simp]: "invoices (seed_sample_data now1 now2 s) = invoices s"
  by (simp add: seed_sample_data_eq)

lemma paid_is_bit_update:
  assumes "paid_is_bit s" and "v = 0 \<or> v = 1"
  shows "paid_is_bit (s\<lparr>invoices :=
           map (\<lambda>i. if i_id i = a then i\<lparr>i_paid := v\<rparr> else i) (invoices s)\<rparr>)"
proof -
  have "list_all (\<lambda>i. i_paid i = 0 \<or> i_paid i = 1)
          (map (\<lambda>i. if i_id i = a then i\<lparr>i_paid := v\<rparr> else i) xs)"
    if "list_all (\<lambda>i. i_paid i = 0 \<or> i_paid i = 1) xs" for xs
    using that assms(2) by (induction xs) auto
  with assms(1) show ?thesis by (simp add: paid_is_bit_def)
qed

lemma step_paid_is_bit:
  "step x s = Inr s' \<Longrightarrow> paid_is_bit s \<Longrightarrow> paid_is_bit s'"
proof (cases x)
  case (Toggle_invoice_paid sel)
  assume "step x s = Inr s'" and "paid_is_bit s"
  with Toggle_invoice_paid show ?thesis
    by (cases sel)
       (auto simp: toggle_invoice_paid_Some toggle_invoice_paid_None
          split: option.splits intro: paid_is_bit_update)
qed (auto simp: paid_is_bit_def add_patient_eq add_appointment_eq add_consultation_eq
       generate_invoice_eq)

lemma run_paid_is_bit:
  "run xs s = Inr s' \<Longrightarrow> paid_is_bit s \<Longrightarrow> paid_is_bit s'"
proof (induction xs arbitrary: s)
  case Nil
  then show ?case by simp
next
  case (Cons x xs)
  then show ?case by (auto split: sum.splits dest: step_paid_is_bit)
qed

text \<open>
  Claim C9. In every store that a sequence of operations (the four inserts, the seed
  and the paid toggle, in any order and number) reaches from the empty store, the
  \<^verbatim>\<open>paid\<close> column of every invoice is 0 or 1.
\<close>

theorem paid_flag_is_0_or_1:
  assumes "run xs empty_store = Inr s"
  shows "\<forall>i \<in> set (invoices s). i_paid i = 0 \<or> i_paid i = 1"
proof -
  have "paid_is_bit empty_store" by (simp add: paid_is_bit_def empty_store_def)
  with assms have "paid_is_bit s" by (rule run_paid_is_bit)
  then show ?thesis by (simp add: paid_is_bit_def list_all_iff)
qed

theorem paid_flag_is_0_or_1_witness:
  "run example_ops empty_store = Inr example_store
   \<and> checkup_invoice \<in> set (invoices example_store)
   \<and> (i_paid checkup_invoice = 0 \<or> i_paid checkup_invoice = 1)
   \<and> stray_invoice \<in> set (invoices example_store)
   \<and> (i_paid stray_invoice = 0 \<or> i_paid stray_invoice = 1)"
proof -
  have m: "checkup_invoice \<in> set (invoices example_store)"
    "stray_invoice \<in> set (invoices example_store)"
    by (simp_all add: example_store_def)
  from paid_flag_is_0_or_1 [OF run_example_ops] m run_example_ops show ?thesis by blast
qed

section \<open>Patients\<close>

lemma fetchone_None: "fetchone rows = None \<longleftrightarrow> rows = []"
  by (cases rows) (simp_all add: fetchone_def)

lemma fetchone_filter_None:
  "fetchone (map f (filter P xs)) = None \<longleftrightarrow> (\<forall>x \<in> set xs. \<not> P x)"
  by (simp add: fetchone_None filter_empty_conv)

lemma filter_key_distinct:
  "distinct (map f xs) \<Longrightarrow> x \<in> set xs \<Longrightarrow> filter (\<lambda>y. f y = f x) xs = [x]"
  by (induction xs) (auto simp: filter_empty_conv image_iff)

text \<open>
  Claim C6. For every store: when ids are unique, \<^verbatim>\<open>get_patient\<close> at the id of a stored
  patient returns that patient's six columns, notes included; whenever some patient has
  the id asked for, the result is the full row of a patient with that id; and the result
  is \<^verbatim>\<open>None\<close> (no error) exactly when no patient has that id.
\<close>

theorem get_patient_found_or_absent:
  "(p \<in> set (patients s) \<and> distinct (map p_id (patients s)) \<longrightarrow>
      get_patient (p_id p) s =
        Some (p_id p, p_first_name p, p_last_name p, p_dob p, p_phone p, p_notes p))
   \<and> ((\<exists>q \<in> set (patients s). p_id q = pid) \<longrightarrow>
      (\<exists>q \<in> set (patients s). p_id q = pid \<and> get_patient pid s =
        Some (p_id q, p_first_name q, p_last_name q, p_dob q, p_phone q, p_notes q)))
   \<and> ((\<forall>q \<in> set (patients s). p_id q \<noteq> pid) \<longleftrightarrow> get_patient pid s = None)"
proof (intro conjI impI)
  assume "p \<in> set (patients s) \<and> distinct (map p_id (patients s))"
  then show "get_patient (p_id p) s =
        Some (p_id p, p_first_name p, p_last_name p, p_dob p, p_phone p, p_notes p)"
    by (simp add: get_patient_def filter_key_distinct fetchone_def)
next
  assume "\<exists>q \<in> set (patients s). p_id q = pid"
  then have "filter (\<lambda>p. p_id p = pid) (patients s) \<noteq> []"
    by (auto simp: filter_empty_conv)
  then obtain q qs where q: "filter (\<lambda>p. p_id p = pid) (patients s) = q # qs"
    by (cases "filter (\<lambda>p. p_id p = pid) (patients s)") auto
  then have "q \<in> set (filter (\<lambda>p. p_id p = pid) (patients s))" by simp
  then have "q \<in> set (patients s)" "p_id q = pid" by auto
  moreover have "get_patient pid s =
        Some (p_id q, p_first_name q, p_last_name q, p_dob q, p_phone q, p_notes q)"
    by (simp add: get_patient_def q fetchone_def)
  ultimately show "\<exists>q \<in> set (patients s). p_id q = pid \<and> get_patient pid s =
        Some (p_id q, p_first_name q, p_last_name q, p_dob q, p_phone q, p_notes q)"
    by blast
next
  show "(\<forall>q \<in> set (patients s). p_id q \<noteq> pid) \<longleftrightarrow> get_patient pid s = None"
    by (auto simp: get_patient_def fetchone_filter_None)
qed

theorem get_patient_found_or_absent_witness:
  "bob \<in> set (patients example_store) \<and> distinct (map p_id (patients example_store))
   \<and> get_patient 2 example_store =
       Some (2, ''Bob'', ''Smith'', ''1990-11-03'', ''+447700900123'', ''Diabetic'')
   \<and> list_all (\<lambda>q. p_id q \<noteq> 3) (patients example_store)
   \<and> get_patient 3 example_store = None"
proof -
  have h1: "bob \<in> set (patients example_store) \<and> distinct (map p_id (patients example_store))"
    by (simp add: example_store_def example_rows)
  have h2: "\<forall>q \<in> set (patients example_store). p_id q \<noteq> 3"
    by (simp add: example_store_def example_rows)
  from get_patient_found_or_absent [of bob example_store 3] h1 h2
  have "get_patient (p_id bob) example_store =
          Some (p_id bob, p_first_name bob, p_last_name bob, p_dob bob, p_phone bob, p_notes bob)"
    and "get_patient 3 example_store = None"
    by blast+
  with h1 h2 show ?thesis by (simp add: bob_def list_all_iff)
qed

lemma insort_key_snoc:
  "\<forall>y \<in> set zs. f y < f x \<Longrightarrow> f a < f x \<Longrightarrow> insort_key f a (zs @ [x]) = insort_key f a zs @ [x]"
  by (induction zs) auto

lemma set_foldr_insort: "set (foldr (insort_key f) xs ys) = set xs \<union> set ys"
  by (induction xs) (auto simp: set_insort_key)

lemma sort_key_snoc:
  "\<forall>y \<in> set xs. f y < f x \<Longrightarrow> sort_key f (xs @ [x]) = sort_key f xs @ [x]"
proof -
  assume a: "\<forall>y \<in> set xs. f y < f x"
  have "\<forall>y \<in> set ys. f y < f x \<Longrightarrow> foldr (insort_key f) ys [x] = foldr (insort_key f) ys [] @ [x]" for ys
  proof (induction ys)
    case Nil
    then show ?case by simp
  next
    case (Cons y ys)
    then have "\<forall>z \<in> set (foldr (insort_key f) ys []). f z < f x"
      by (simp add: set_foldr_insort)
    with Cons show ?case by (simp add: insort_key_snoc)
  qed
  with a show ?thesis by (simp add: sort_key_def)
qed

lemma list_patients_add_patient:
  "list_patients (snd (add_patient f l d ph n s)) =
     (next_rowid (patients_seq s) (map p_id (patients s)), f, l, d, ph) # list_patients s"
proof -
  let ?r = "next_rowid (patients_seq s) (map p_id (patients s))"
  let ?row = "\<lparr>p_id = ?r, p_first_name = f, p_last_name = l, p_dob = d, p_phone = ph, p_notes = n\<rparr>"
  have "\<forall>y \<in> set (patients s). p_id y < p_id ?row"
    using next_rowid_gt_elem [of _ "map p_id (patients s)" "patients_seq s"] by simp
  then have "sort_key p_id (patients s @ [?row]) = sort_key p_id (patients s) @ [?row]"
    by (rule sort_key_snoc)
  then show ?thesis by (simp add: list_patients_def order_by_desc_def add_patient_eq)
qed

text \<open>
  Claim C7. For every store, \<^verbatim>\<open>list_patients\<close> returns the five columns
  (id, first name, last name, dob, phone) of every patient, each row once, with the ids
  in descending order; and right after \<^verbatim>\<open>add_patient\<close> the new patient's row is the head
  of the list, followed by the list as it was before.
\<close>

theorem list_patients_desc:
  "mset (list_patients s) =
     mset (map (\<lambda>p. (p_id p, p_first_name p, p_last_name p, p_dob p, p_phone p)) (patients s))
   \<and> sorted (rev (map fst (list_patients s)))
   \<and> (\<exists>pid. fst (add_patient f l d ph n s) = Some pid
        \<and> list_patients (snd (add_patient f l d ph n s)) = (pid, f, l, d, ph) # list_patients s)"
proof (intro conjI)
  show "mset (list_patients s) =
     mset (map (\<lambda>p. (p_id p, p_first_name p, p_last_name p, p_dob p, p_phone p)) (patients s))"
    by (simp add: list_patients_def order_by_desc_def)
  have "map fst (list_patients s) = rev (map p_id (sort_key p_id (patients s)))"
    by (simp add: list_patients_def order_by_desc_def rev_map comp_def)
  then show "sorted (rev (map fst (list_patients s)))" by simp
  show "\<exists>pid. fst (add_patient f l d ph n s) = Some pid
        \<and> list_patients (snd (add_patient f l d ph n s)) = (pid, f, l, d, ph) # list_patients s"
    by (simp add: list_patients_add_patient) (simp add: add_patient_eq)
qed

lemma patients_seq_insert_patient:
  "patients_seq s < patients_seq (snd (insert_patient f l d ph n c s))"
  by (simp add: insert_patient_def Let_def next_rowid_gt_seq)

lemma patients_seq_insert_appointment [simp]:
  "patients_seq (snd (insert_appointment p d dt r c s)) = patients_seq s"
  by (simp add: insert_appointment_def Let_def)

lemma patients_seq_seed: "patients_seq s \<le> patients_seq (seed_sample_data now1 now2 s)"
proof -
  let ?s1 = "snd (insert_patient ''Alice'' ''Wong'' ''1985-04-12'' ''+441234567890''
                        ''Allergic to penicillin'' new_cursor s)"
  have "patients_seq s < patients_seq ?s1" by (rule patients_seq_insert_patient)
  also have "\<dots> < patients_seq (snd (insert_patient ''Bob'' ''Smith'' ''1990-11-03''
      ''+447700900123'' ''Diabetic'' new_cursor ?s1))"
    by (rule patients_seq_insert_patient)
  finally show ?thesis by (simp add: seed_sample_data_eq)
qed

lemma step_patients_seq_mono: "step x s = Inr s' \<Longrightarrow> patients_seq s \<le> patients_seq s'"
proof (cases x)
  case (Add_patient f l d ph n)
  assume "step x s = Inr s'"
  with Add_patient show ?thesis
    using next_rowid_gt_seq [of "patients_seq s" "map p_id (patients s)"]
    by (auto simp: add_patient_eq)
next
  case (Toggle_invoice_paid sel)
  assume "step x s = Inr s'"
  with Toggle_invoice_paid show ?thesis
    by (cases sel)
       (auto simp: toggle_invoice_paid_Some toggle_invoice_paid_None split: option.splits)
next
  case (Seed_sample_data now1 now2)
  assume "step x s = Inr s'"
  with Seed_sample_data show ?thesis using patients_seq_seed [of s now1 now2] by auto
qed (auto simp: add_appointment_eq add_consultation_eq generate_invoice_eq)

lemma run_patients_seq_mono: "run xs s = Inr s' \<Longrightarrow> patients_seq s \<le> patients_seq s'"
proof (induction xs arbitrary: s)
  case Nil
  then show ?case by simp
next
  case (Cons x xs)
  then obtain s1 where s1: "step x s = Inr s1" and r: "run xs s1 = Inr s'"
    by (auto split: sum.splits)
  from s1 have "patients_seq s \<le> patients_seq s1" by (rule step_patients_seq_mono)
  also from r have "\<dots> \<le> patients_seq s'" by (rule Cons.IH)
  finally show ?case .
qed

text \<open>
  Claim C8. For every store and all names (the non-empty ones among them),
  \<^verbatim>\<open>add_patient\<close> returns an id that is greater than the id of every patient in the table
  and greater than the recorded sequence value, that is, than every id handed out before.
  After any further sequence of operations, the next \<^verbatim>\<open>add_patient\<close> returns an id that
  is greater again: ids grow strictly from call to call and none is used twice.
\<close>

theorem add_patient_id_strictly_increasing:
  "\<exists>pid. fst (add_patient f l d ph n s) = Some pid
     \<and> (\<forall>q \<in> set (patients s). p_id q < pid)
     \<and> patients_seq s < pid
     \<and> (run xs (snd (add_patient f l d ph n s)) = Inr t \<longrightarrow>
          (\<exists>pid'. fst (add_patient f' l2 d' ph' n' t) = Some pid' \<and> pid < pid'
             \<and> (\<forall>q \<in> set (patients t). p_id q < pid')))"
proof -
  let ?pid = "next_rowid (patients_seq s) (map p_id (patients s))"
  let ?s1 = "snd (add_patient f l d ph n s)"
  have 1: "fst (add_patient f l d ph n s) = Some ?pid" by (simp add: add_patient_eq)
  have 2: "\<forall>q \<in> set (patients s). p_id q < ?pid"
    using next_rowid_gt_elem [of _ "map p_id (patients s)" "patients_seq s"] by simp
  have 3: "patients_seq s < ?pid" by (rule next_rowid_gt_seq)
  have 4: "\<exists>pid'. fst (add_patient f' l2 d' ph' n' t) = Some pid' \<and> ?pid < pid'
             \<and> (\<forall>q \<in> set (patients t). p_id q < pid')"
    if r: "run xs ?s1 = Inr t"
  proof -
    let ?pid' = "next_rowid (patients_seq t) (map p_id (patients t))"
    have "patients_seq ?s1 = ?pid" by (simp add: add_patient_eq)
    with run_patients_seq_mono [OF r] have "?pid \<le> patients_seq t" by simp
    also have "\<dots> < ?pid'" by (rule next_rowid_gt_seq)
    finally have "?pid < ?pid'" .
    moreover have "fst (add_patient f' l2 d' ph' n' t) = Some ?pid'"
      by (simp add: add_patient_eq)
    moreover have "\<forall>q \<in> set (patients t). p_id q < ?pid'"
      using next_rowid_gt_elem [of _ "map p_id (patients t)" "patients_seq t"] by simp
    ultimately show ?thesis by blast
  qed
  from 1 2 3 4 show ?thesis by blast
qed

theorem add_patient_id_strictly_increasing_witness:
  "fst (add_patient ''Carol'' ''Diaz'' '''' '''' '''' example_store) = Some 3
   \<and> list_all (\<lambda>q. p_id q < 3) (patients example_store)
   \<and> patients_seq example_store < 3
   \<and> (\<exists>t. run [Add_appointment 3 ''Dr. Patel'' ''2024-02-01T09:00'' ''Consultation'',
               Add_patient ''Dan'' ''Evans'' '''' '''' '''']
              (snd (add_patient ''Carol'' ''Diaz'' '''' '''' '''' example_store)) = Inr t
          \<and> (\<exists>pid'. fst (add_patient ''Eve'' ''Fox'' '''' '''' '''' t) = Some pid' \<and> 3 < pid'
                \<and> list_all (\<lambda>q. p_id q < pid') (patients t)))"
proof -
  let ?s1 = "snd (add_patient ''Carol'' ''Diaz'' '''' '''' '''' example_store)"
  let ?xs = "[Add_appointment 3 ''Dr. Patel'' ''2024-02-01T09:00'' ''Consultation'',
               Add_patient ''Dan'' ''Evans'' '''' '''' '''']"
  let ?t = "snd (add_patient ''Dan'' ''Evans'' '''' '''' ''''
              (snd (add_appointment 3 ''Dr. Patel'' ''2024-02-01T09:00'' ''Consultation'' ?s1)))"
  have r: "run ?xs ?s1 = Inr ?t" by simp
  have e: "fst (add_patient ''Carol'' ''Diaz'' '''' '''' '''' example_store) = Some 3"
    by (simp add: add_patient_eq next_rowid_def example_store_def example_rows)
  from add_patient_id_strictly_increasing
         [of "''Carol''" "''Diaz''" "''''" "''''" "''''" example_store ?xs ?t
             "''Eve''" "''Fox''" "''''" "''''" "''''"] e r
  have "list_all (\<lambda>q. p_id q < 3) (patients example_store) \<and> patients_seq example_store < 3
     \<and> (\<exists>pid'. fst (add_patient ''Eve'' ''Fox'' '''' '''' '''' ?t) = Some pid' \<and> 3 < pid'
                \<and> list_all (\<lambda>q. p_id q < pid') (patients ?t))"
    unfolding list_all_iff by auto
  with e r show ?thesis by blast
qed

section \<open>Primary keys stay unique\<close>

lemma keys_unique_insert_patient:
  "keys_unique s \<Longrightarrow> keys_unique (snd (insert_patient f l d ph n c s))"
  using next_rowid_fresh [of "patients_seq s" "map p_id (patients s)"]
  by (simp add: keys_unique_def insert_patient_def Let_def)

lemma keys_unique_insert_appointment:
  "keys_unique s \<Longrightarrow> keys_unique (snd (insert_appointment p d dt r c s))"
  using next_rowid_fresh [of "appointments_seq s" "map a_id (appointments s)"]
  by (simp add: keys_unique_def insert_appointment_def Let_def)

lemma keys_unique_insert_consultation:
  "keys_unique s \<Longrightarrow> keys_unique (snd (insert_consultation a p d n pr t c s))"
  using next_rowid_fresh [of "consultations_seq s" "map c_id (consultations s)"]
  by (simp add: keys_unique_def insert_consultation_def Let_def)

lemma keys_unique_insert_invoice:
  "keys_unique s \<Longrightarrow> keys_unique (snd (insert_invoice p a amt t c s))"
  using next_rowid_fresh [of "invoices_seq s" "map i_id (invoices s)"]
  by (simp add: keys_unique_def insert_invoice_def Let_def)

lemma a_id_update: "a_id \<circ> (\<lambda>x. if a_id x = a then x\<lparr>a_status := v\<rparr> else x) = a_id"
  by (auto simp: fun_eq_iff)

lemma i_id_update: "i_id \<circ> (\<lambda>x. if i_id x = j then x\<lparr>i_paid := v\<rparr> else x) = i_id"
  by (auto simp: fun_eq_iff)

lemma keys_unique_update_appointment:
  "keys_unique s \<Longrightarrow> keys_unique (snd (update_appointment_completed a c s))"
  by (simp add: keys_unique_def update_appointment_completed_def a_id_update)

lemma keys_unique_update_invoice:
  "keys_unique s \<Longrightarrow> keys_unique (snd (update_invoice_paid v j c s))"
  by (simp add: keys_unique_def update_invoice_paid_def i_id_update)

lemma keys_unique_seed: "keys_unique s \<Longrightarrow> keys_unique (seed_sample_data now1 now2 s)"
  by (simp add: seed_sample_data_eq keys_unique_insert_patient keys_unique_insert_appointment)

lemma step_keys_unique: "step x s = Inr s' \<Longrightarrow> keys_unique s \<Longrightarrow> keys_unique s'"
proof (cases x)
  case (Add_patient f l d ph n)
  assume "step x s = Inr s'" and "keys_unique s"
  with Add_patient show ?thesis
    using keys_unique_insert_patient [of s f l d ph n new_cursor]
    by (auto simp: add_patient_def split_def Let_def)
next
  case (Add_appointment p d dt r)
  assume "step x s = Inr s'" and "keys_unique s"
  with Add_appointment show ?thesis
    using keys_unique_insert_appointment [of s p d dt r new_cursor]
    by (auto simp: add_appointment_def split_def Let_def)
next
  case (Add_consultation a p d n pr now)
  assume "step x s = Inr s'" and k: "keys_unique s"
  with Add_consultation show ?thesis
    using keys_unique_update_appointment [OF keys_unique_insert_consultation [OF k]]
    by (auto simp: add_consultation_def split_def Let_def)
next
  case (Generate_invoice p a amt now)
  assume "step x s = Inr s'" and "keys_unique s"
  with Generate_invoice show ?thesis
    using keys_unique_insert_invoice [of s p a amt now new_cursor]
    by (auto simp: generate_invoice_def split_def Let_def)
next
  case (Toggle_invoice_paid sel)
  assume "step x s = Inr s'" and "keys_unique s"
  with Toggle_invoice_paid show ?thesis
    by (cases sel)
       (auto simp: toggle_invoice_paid_def keys_unique_update_invoice split: option.splits)
next
  case (Seed_sample_data now1 now2)
  assume "step x s = Inr s'" and "keys_unique s"
  with Seed_sample_data show ?thesis by (auto simp: keys_unique_seed)
qed

lemma run_keys_unique: "run xs s = Inr s' \<Longrightarrow> keys_unique s \<Longrightarrow> keys_unique s'"
proof (induction xs arbitrary: s)
  case Nil
  then show ?case by simp
next
  case (Cons x xs)
  then show ?case by (auto split: sum.splits dest: step_keys_unique)
qed

lemma keys_unique_reachable: "run xs empty_store = Inr s \<Longrightarrow> keys_unique s"
  by (erule run_keys_unique) (simp add: keys_unique_def empty_store_def)

section \<open>Listings joined to the patients\<close>

lemma join_one_row:
  "distinct (map p_id ps) \<Longrightarrow>
   map fst (map (Pair r) (filter (\<lambda>p. k = p_id p) ps)) = (if k \<in> p_id ` set ps then [r] else [])"
proof (induction ps)
  case Nil
  then show ?case by simp
next
  case (Cons q qs)
  show ?case
  proof (cases "k = p_id q")
    case True
    with Cons.prems have "filter (\<lambda>p. k = p_id p) qs = []"
      by (auto simp: filter_empty_conv image_iff)
    with True show ?thesis by simp
  next
    case False
    with Cons show ?thesis by simp
  qed
qed

lemma join_patients_fst:
  assumes "distinct (map p_id ps)"
  shows "map fst (join_patients fk rows ps) = filter (\<lambda>r. fk r \<in> p_id ` set ps) rows"
proof (induction rows)
  case Nil
  show ?case by (simp add: join_patients_def)
next
  case (Cons r rows)
  have "map fst (join_patients fk (r # rows) ps) =
          map fst (map (Pair r) (filter (\<lambda>p. fk r = p_id p) ps)) @ map fst (join_patients fk rows ps)"
    by (simp add: join_patients_def)
  also have "\<dots> = (if fk r \<in> p_id ` set ps then [r] else []) @ filter (\<lambda>r. fk r \<in> p_id ` set ps) rows"
    by (simp only: join_one_row [OF assms] Cons.IH)
  finally show ?case by simp
qed

lemma mset_order_by_desc [simp]: "mset (order_by_desc key rows) = mset rows"
  by (simp add: order_by_desc_def)

lemma length_order_by_desc [simp]: "length (order_by_desc key rows) = length rows"
  by (simp add: order_by_desc_def)

lemma mset_ids_of_listing:
  "mset (map (\<lambda>x. g (fst x)) (order_by_desc key J)) = mset (map g (map fst J))"
proof -
  have "mset (map (\<lambda>x. g (fst x)) (order_by_desc key J)) = image_mset (\<lambda>x. g (fst x)) (mset J)"
    by (simp only: mset_map mset_order_by_desc)
  also have "\<dots> = mset (map g (map fst J))" by (simp add: comp_def)
  finally show ?thesis .
qed

lemma list_appointments_ids:
  assumes "distinct (map p_id (patients s))"
  shows "mset (map fst (list_appointments s)) =
         mset (map a_id (filter (\<lambda>a. a_patient_id a \<in> p_id ` set (patients s)) (appointments s)))"
proof -
  have "map fst (list_appointments s) =
          map (\<lambda>x. a_id (fst x)) (order_by_desc (\<lambda>(a, p). a_datetime a)
            (join_patients a_patient_id (appointments s) (patients s)))"
    by (simp add: list_appointments_def split_def comp_def)
  then show ?thesis by (simp only: mset_ids_of_listing join_patients_fst [OF assms])
qed

lemma list_consultations_ids:
  assumes "distinct (map p_id (patients s))"
  shows "mset (map fst (list_consultations s)) =
         mset (map c_id (filter (\<lambda>c. c_patient_id c \<in> p_id ` set (patients s)) (consultations s)))"
proof -
  have "map fst (list_consultations s) =
          map (\<lambda>x. c_id (fst x)) (order_by_desc (\<lambda>(c, p). c_created_at c)
            (join_patients c_patient_id (consultations s) (patients s)))"
    by (simp add: list_consultations_def split_def comp_def)
  then show ?thesis by (simp only: mset_ids_of_listing join_patients_fst [OF assms])
qed

lemma list_invoices_ids:
  assumes "distinct (map p_id (patients s))"
  shows "mset (map fst (list_invoices s)) =
         mset (map i_id (filter (\<lambda>i. i_patient_id i \<in> p_id ` set (patients s)) (invoices s)))"
proof -
  have "map fst (list_invoices s) =
          map (\<lambda>x. i_id (fst x)) (order_by_desc (\<lambda>(i, p). i_issued_at i)
            (join_patients i_patient_id (invoices s) (patients s)))"
    by (simp add: list_invoices_def split_def comp_def)
  then show ?thesis by (simp only: mset_ids_of_listing join_patients_fst [OF assms])
qed

lemma omitted_id:
  assumes m: "mset (map fst listing) = mset (map key (filter P rows))"
    and d: "distinct (map key rows)" and r: "r \<in> set rows" and n: "\<not> P r"
  shows "key r \<notin> fst ` set listing"
proof
  assume "key r \<in> fst ` set listing"
  then have "key r \<in> set (map fst listing)" by simp
  then have "key r \<in># mset (map fst listing)" by (simp only: set_mset_mset)
  with m have "key r \<in># mset (map key (filter P rows))" by simp
  then have "key r \<in> key ` set (filter P rows)" by simp
  then obtain r' where r': "r' \<in> set rows" "P r'" "key r' = key r" by auto
  from d have "inj_on key (set rows)" by (simp add: distinct_map)
  with r r' have "r' = r" by (auto dest: inj_onD)
  with r' n show False by simp
qed

lemma length_of_mset_eq: "mset (map f xs) = mset (map g ys) \<Longrightarrow> length xs = length ys"
  using mset_eq_length [of "map f xs" "map g ys"] by simp

lemma filter_all: "\<forall>x \<in> set xs. P x \<Longrightarrow> filter P xs = xs"
  by (simp add: filter_id_conv)

text \<open>
  Claim C10. Let the patient ids be unique. The ids listed by \<^verbatim>\<open>list_appointments\<close>,
  \<^verbatim>\<open>list_consultations\<close> and \<^verbatim>\<open>list_invoices\<close> are, with multiplicity, the ids of the stored
  rows whose patient id is the id of an existing patient: a stored row whose patient id
  matches no patient has no line in the listing (its id is not listed, when the ids of its
  table are unique), while the dashboard counts are the numbers of all stored rows. When
  every row of a table refers to an existing patient, its listing has as many lines as
  the table has rows, one per stored id.
\<close>

theorem listings_inner_join_patients:
  assumes "distinct (map p_id (patients s))"
  shows
    "mset (map fst (list_appointments s)) =
       mset (map a_id (filter (\<lambda>a. patient_exists s (a_patient_id a)) (appointments s)))
     \<and> mset (map fst (list_consultations s)) =
       mset (map c_id (filter (\<lambda>c. patient_exists s (c_patient_id c)) (consultations s)))
     \<and> mset (map fst (list_invoices s)) =
       mset (map i_id (filter (\<lambda>i. patient_exists s (i_patient_id i)) (invoices s)))
     \<and> (a \<in> set (appointments s) \<and> \<not> patient_exists s (a_patient_id a)
          \<and> distinct (map a_id (appointments s)) \<longrightarrow> a_id a \<notin> fst ` set (list_appointments s))
     \<and> (c \<in> set (consultations s) \<and> \<not> patient_exists s (c_patient_id c)
          \<and> distinct (map c_id (consultations s)) \<longrightarrow> c_id c \<notin> fst ` set (list_consultations s))
     \<and> (i \<in> set (invoices s) \<and> \<not> patient_exists s (i_patient_id i)
          \<and> distinct (map i_id (invoices s)) \<longrightarrow> i_id i \<notin> fst ` set (list_invoices s))
     \<and> d_appts (refresh_admin real_sum s) = int (length (appointments s))
     \<and> d_cons (refresh_admin real_sum s) = int (length (consultations s))
     \<and> d_inv_count (refresh_admin real_sum s) = int (length (invoices s))
     \<and> ((\<forall>x \<in> set (appointments s). patient_exists s (a_patient_id x)) \<longrightarrow>
          length (list_appointments s) = length (appointments s)
          \<and> mset (map fst (list_appointments s)) = mset (map a_id (appointments s)))
     \<and> ((\<forall>x \<in> set (consultations s). patient_exists s (c_patient_id x)) \<longrightarrow>
          length (list_consultations s) = length (consultations s)
          \<and> mset (map fst (list_consultations s)) = mset (map c_id (consultations s)))
     \<and> ((\<forall>x \<in> set (invoices s). patient_exists s (i_patient_id x)) \<longrightarrow>
          length (list_invoices s) = length (invoices s)
          \<and> mset (map fst (list_invoices s)) = mset (map i_id (invoices s)))"
proof -
  have A: "mset (map fst (list_appointments s)) =
       mset (map a_id (filter (\<lambda>a. patient_exists s (a_patient_id a)) (appointments s)))"
    unfolding patient_exists_def by (rule list_appointments_ids [OF assms])
  have C: "mset (map fst (list_consultations s)) =
       mset (map c_id (filter (\<lambda>c. patient_exists s (c_patient_id c)) (consultations s)))"
    unfolding patient_exists_def by (rule list_consultations_ids [OF assms])
  have I: "mset (map fst (list_invoices s)) =
       mset (map i_id (filter (\<lambda>i. patient_exists s (i_patient_id i)) (invoices s)))"
    unfolding patient_exists_def by (rule list_invoices_ids [OF assms])
  have A1: "a \<in> set (appointments s) \<and> \<not> patient_exists s (a_patient_id a)
          \<and> distinct (map a_id (appointments s)) \<longrightarrow> a_id a \<notin> fst ` set (list_appointments s)"
    using omitted_id [OF A] by blast
  have C1: "c \<in> set (consultations s) \<and> \<not> patient_exists s (c_patient_id c)
          \<and> distinct (map c_id (consultations s)) \<longrightarrow> c_id c \<notin> fst ` set (list_consultations s)"
    using omitted_id [OF C] by blast
  have I1: "i \<in> set (invoices s) \<and> \<not> patient_exists s (i_patient_id i)
          \<and> distinct (map i_id (invoices s)) \<longrightarrow> i_id i \<notin> fst ` set (list_invoices s)"
    using omitted_id [OF I] by blast
  have D: "d_appts (refresh_admin real_sum s) = int (length (appointments s))"
    "d_cons (refresh_admin real_sum s) = int (length (consultations s))"
    "d_inv_count (refresh_admin real_sum s) = int (length (invoices s))"
    by (simp_all add: refresh_admin_def)
  have A2: "length (list_appointments s) = length (appointments s)
          \<and> mset (map fst (list_appointments s)) = mset (map a_id (appointments s))"
    if "\<forall>x \<in> set (appointments s). patient_exists s (a_patient_id x)"
    using A length_of_mset_eq [of fst "list_appointments s" a_id "appointments s"]
    by (simp only: filter_all [OF that])
  have C2: "length (list_consultations s) = length (consultations s)
          \<and> mset (map fst (list_consultations s)) = mset (map c_id (consultations s))"
    if "\<forall>x \<in> set (consultations s). patient_exists s (c_patient_id x)"
    using C length_of_mset_eq [of fst "list_consultations s" c_id "consultations s"]
    by (simp only: filter_all [OF that])
  have I2: "length (list_invoices s) = length (invoices s)
          \<and> mset (map fst (list_invoices s)) = mset (map i_id (invoices s))"
    if "\<forall>x \<in> set (invoices s). patient_exists s (i_patient_id x)"
    using I length_of_mset_eq [of fst "list_invoices s" i_id "invoices s"]
    by (simp only: filter_all [OF that])
  from A C I A1 C1 I1 D A2 C2 I2 show ?thesis by blast
qed

text \<open>
  The example store has a stray row in each table; in \<open>clean_store\<close> every row refers
  to a patient.
\<close>

theorem listings_inner_join_patients_witness:
  "distinct (map p_id (patients example_store))
   \<and> stray_appointment \<in> set (appointments example_store)
   \<and> \<not> patient_exists example_store (a_patient_id stray_appointment)
   \<and> distinct (map a_id (appointments example_store))
   \<and> a_id stray_appointment \<notin> fst ` set (list_appointments example_store)
   \<and> stray_consultation \<in> set (consultations example_store)
   \<and> \<not> patient_exists example_store (c_patient_id stray_consultation)
   \<and> distinct (map c_id (consultations example_store))
   \<and> c_id stray_consultation \<notin> fst ` set (list_consultations example_store)
   \<and> stray_invoice \<in> set (invoices example_store)
   \<and> \<not> patient_exists example_store (i_patient_id stray_invoice)
   \<and> distinct (map i_id (invoices example_store))
   \<and> i_id stray_invoice \<notin> fst ` set (list_invoices example_store)
   \<and> d_appts (refresh_admin sum_list example_store) = 3
   \<and> d_cons (refresh_admin sum_list example_store) = 2
   \<and> d_inv_count (refresh_admin sum_list example_store) = 2
   \<and> distinct (map p_id (patients clean_store))
   \<and> list_all (\<lambda>x. patient_exists clean_store (a_patient_id x)) (appointments clean_store)
   \<and> length (list_appointments clean_store) = length (appointments clean_store)
   \<and> list_all (\<lambda>x. patient_exists clean_store (c_patient_id x)) (consultations clean_store)
   \<and> length (list_consultations clean_store) = length (consultations clean_store)
   \<and> list_all (\<lambda>x. patient_exists clean_store (i_patient_id x)) (invoices clean_store)
   \<and> length (list_invoices clean_store) = length (invoices clean_store)"
proof -
  have d: "distinct (map p_id (patients example_store))"
    by (simp add: example_store_def example_rows)
  have a: "stray_appointment \<in> set (appointments example_store)
     \<and> \<not> patient_exists example_store (a_patient_id stray_appointment)
     \<and> distinct (map a_id (appointments example_store))"
    by (simp add: example_store_def example_rows patient_exists_def)
  have c: "stray_consultation \<in> set (consultations example_store)
     \<and> \<not> patient_exists example_store (c_patient_id stray_consultation)
     \<and> distinct (map c_id (consultations example_store))"
    by (simp add: example_store_def example_rows patient_exists_def)
  have i: "stray_invoice \<in> set (invoices example_store)
     \<and> \<not> patient_exists example_store (i_patient_id stray_invoice)
     \<and> distinct (map i_id (invoices example_store))"
    by (simp add: example_store_def example_rows patient_exists_def)
  have n: "int (length (appointments example_store)) = 3"
    "int (length (consultations example_store)) = 2"
    "int (length (invoices example_store)) = 2"
    by (simp_all add: example_store_def)
  have d': "distinct (map p_id (patients clean_store))"
    by (simp add: clean_store_def example_rows)
  have a': "\<forall>x \<in> set (appointments clean_store). patient_exists clean_store (a_patient_id x)"
    by (simp add: clean_store_def example_rows patient_exists_def)
  have c': "\<forall>x \<in> set (consultations clean_store). patient_exists clean_store (c_patient_id x)"
    by (simp add: clean_store_def example_rows patient_exists_def)
  have i': "\<forall>x \<in> set (invoices clean_store). patient_exists clean_store (i_patient_id x)"
    by (simp add: clean_store_def example_rows patient_exists_def)
  note 1 = listings_inner_join_patients [OF d, of stray_appointment stray_consultation
             stray_invoice sum_list]
  note 2 = listings_inner_join_patients [OF d', of checkup checkup_notes checkup_invoice sum_list]
  from 1 a c i n have e: "a_id stray_appointment \<notin> fst ` set (list_appointments example_store)"
    "c_id stray_consultation \<notin> fst ` set (list_consultations example_store)"
    "i_id stray_invoice \<notin> fst ` set (list_invoices example_store)"
    "d_appts (refresh_admin sum_list example_store) = 3"
    "d_cons (refresh_admin sum_list example_store) = 2"
    "d_inv_count (refresh_admin sum_list example_store) = 2"
    by simp_all
  from 2 a' c' i' have f: "length (list_appointments clean_store) = length (appointments clean_store)"
    "length (list_consultations clean_store) = length (consultations clean_store)"
    "length (list_invoices clean_store) = length (invoices clean_store)"
    by blast+
  from d a c i e d' a' c' i' f show ?thesis unfolding list_all_iff by blast
qed

section \<open>The dashboard\<close>

text \<open>
  Whatever the floating-point sum is, the revenue of a store without invoices is 0.
\<close>

lemma dashboard_sum_zero_if_no_invoices:
  "invoices s = [] \<Longrightarrow> d_inv_sum (refresh_admin real_sum s) = 0"
  by (simp add: refresh_admin_def sum_aggregate_def ifnull_def)

end
